theory Spec2Isabelle
  imports Main
begin

section \<open>The book checklist server (server.js)\<close>

text \<open>
  The server is an Express application over three libraries: Mongoose (the two
  collections), bcryptjs (password hashes) and jsonwebtoken (bearer tokens). The handlers
  are embedded as functions from the database and the request to a reply and the
  database afterwards. Requests are handled one after another.

  What the libraries compute is passed to each handler as a function: the bcrypt hash and
  comparison, the signing and verification of a token, and Mongoose's casts of a string
  to an ObjectId or to a Date. Text is ASCII: a string is a list of 8-bit characters and
  only the letters a-z and A-Z have a case. The fields of a registration body
  and the password of a login are JSON values; the email of a login is a string and the
  fields of a book body are absent or strings.
\<close>

subsection \<open>Strings\<close>

definition toLowerCase_char :: "char \<Rightarrow> char" where
  "toLowerCase_char c =
     (let n = (of_char c :: nat) in if 65 \<le> n \<and> n \<le> 90 then char_of (n + 32) else c)"

definition toUpperCase_char :: "char \<Rightarrow> char" where
  "toUpperCase_char c =
     (let n = (of_char c :: nat) in if 97 \<le> n \<and> n \<le> 122 then char_of (n - 32) else c)"

definition toLowerCase :: "string \<Rightarrow> string" where
  "toLowerCase s = map toLowerCase_char s"

text \<open>White space as \<^verbatim>\<open>String.prototype.trim\<close> sees it in ASCII: tab, line feed,
  vertical tab, form feed, carriage return and space.\<close>

definition is_space :: "char \<Rightarrow> bool" where
  "is_space c = ((of_char c :: nat) \<in> {9, 10, 11, 12, 13, 32})"

definition trim :: "string \<Rightarrow> string" where
  "trim s = rev (dropWhile is_space (rev (dropWhile is_space s)))"

text \<open>\<^verbatim>\<open>s.split(' ')\<close>: the pieces between single spaces; never the empty list.\<close>

fun split_space :: "string \<Rightarrow> string list" where
  "split_space [] = [[]]"
| "split_space (c # cs) =
     (if c = CHR '' '' then [] # split_space cs
      else (case split_space cs of
              [] \<Rightarrow> [[c]]
            | w # ws \<Rightarrow> (c # w) # ws))"

text \<open>\<^verbatim>\<open>xs[i]\<close>, with \<open>None\<close> for \<^verbatim>\<open>undefined\<close>.\<close>

definition index :: "'a list \<Rightarrow> nat \<Rightarrow> 'a option" where
  "index xs i = (if i < length xs then Some (xs ! i) else None)"

text \<open>\<^verbatim>\<open>!v\<close> for a body field that is absent or a string.\<close>

definition falsy :: "string option \<Rightarrow> bool" where
  "falsy v = (v = None \<or> v = Some [])"

subsection \<open>JSON values\<close>

text \<open>
  A field of a JSON body as \<^verbatim>\<open>express.json()\<close> parses it: \<^verbatim>\<open>null\<close>, a boolean, a
  number, a string or an array; an absent field (\<^verbatim>\<open>undefined\<close>) is \<open>None\<close>. Numbers
  are the integers, and objects as values of a field are not modelled.
\<close>

datatype json = JNull | JBool bool | JNumber int | JString string | JArray "json list"

text \<open>\<^verbatim>\<open>!v\<close>: true for \<^verbatim>\<open>undefined\<close>, \<^verbatim>\<open>null\<close>, \<^verbatim>\<open>false\<close>, zero and the empty
  string.\<close>

fun js_not :: "json option \<Rightarrow> bool" where
  "js_not None = True"
| "js_not (Some JNull) = True"
| "js_not (Some (JBool b)) = (b = False)"
| "js_not (Some (JNumber n)) = (n = 0)"
| "js_not (Some (JString v)) = (v = [])"
| "js_not (Some (JArray vs)) = False"

text \<open>
  \<^verbatim>\<open>v.length < n\<close>: strings and arrays have a length; on a number or a boolean the
  property is \<^verbatim>\<open>undefined\<close>, and \<^verbatim>\<open>undefined < n\<close> is false. On \<^verbatim>\<open>undefined\<close> and
  \<^verbatim>\<open>null\<close> the access throws; the handler never gets there, \<^verbatim>\<open>!v\<close> being true.
\<close>

fun length_less :: "json option \<Rightarrow> nat \<Rightarrow> bool" where
  "length_less (Some (JString v)) n = (length v < n)"
| "length_less (Some (JArray vs)) n = (length vs < n)"
| "length_less v n = False"

text \<open>\<^verbatim>\<open>Number.prototype.toString\<close> on an integer (below \<open>10\<^sup>2\<^sup>1\<close> in size): its decimal
  digits.\<close>

definition digit_char :: "nat \<Rightarrow> char" where
  "digit_char d = char_of (48 + d)"

function decimal_nat :: "nat \<Rightarrow> string" where
  "decimal_nat n =
     (if n < 10 then [digit_char n] else decimal_nat (n div 10) @ [digit_char (n mod 10)])"
  by pat_completeness auto
termination
  by (relation "measure id") auto

declare decimal_nat.simps [simp del]

definition Number_toString :: "int \<Rightarrow> string" where
  "Number_toString n = (if n < 0 then CHR ''-'' # decimal_nat (nat (- n)) else decimal_nat (nat n))"

subsection \<open>Documents and the database\<close>

type_synonym objectid = nat
type_synonym date = int

record user_doc =
  user_id :: objectid
  email :: string
  password :: string

record book_doc =
  book_id :: objectid
  user :: objectid
  title :: string
  author :: string
  isbn :: string
  date_purchased :: "date option"
  publisher :: "string option"
  book_notes :: "string option"
  createdAt :: date
  updatedAt :: date

text \<open>The collections in insertion order, and the next identifier the driver hands out.\<close>

record db =
  users :: "user_doc list"
  books :: "book_doc list"
  next_id :: objectid

text \<open>A cast of Mongoose either yields a value or throws a \<^verbatim>\<open>CastError\<close>. The cast
  to a Date may yield \<^verbatim>\<open>null\<close> (for the empty string), which is \<open>Casted None\<close>.\<close>

datatype 'a casted = CastError | Casted 'a

definition cast_field :: "(string \<Rightarrow> 'a casted) \<Rightarrow> string option \<Rightarrow> 'a option casted" where
  "cast_field cast v =
     (case v of
        None \<Rightarrow> Casted None
      | Some x \<Rightarrow> (case cast x of CastError \<Rightarrow> CastError | Casted y \<Rightarrow> Casted (Some y)))"

text \<open>What a handler sends when it does not succeed: \<^verbatim>\<open>res.sendStatus(n)\<close>,
  \<^verbatim>\<open>res.status(n).json({message})\<close> or \<^verbatim>\<open>res.status(n).json({message, book})\<close>.\<close>

datatype failure =
  SendStatus nat
| Message nat string
| MessageBook nat string book_doc

text \<open>
  The cast of a String path: a string is itself, a number or a boolean is what
  \<^verbatim>\<open>toString()\<close> prints, \<^verbatim>\<open>null\<close> stays \<^verbatim>\<open>null\<close> (\<open>Casted None\<close>) and an array does
  not cast.
\<close>

fun castString :: "json \<Rightarrow> string option casted" where
  "castString (JString v) = Casted (Some v)"
| "castString (JNumber n) = Casted (Some (Number_toString n))"
| "castString (JBool b) = Casted (Some (if b then ''true'' else ''false''))"
| "castString JNull = Casted None"
| "castString (JArray vs) = CastError"

subsection \<open>Users\<close>

text \<open>The setters of the \<^verbatim>\<open>email\<close> path: \<^verbatim>\<open>trim: true, lowercase: true\<close>.\<close>

definition email_setters :: "string \<Rightarrow> string" where
  "email_setters e = trim (toLowerCase e)"

datatype save_error = ValidationError | DuplicateKey

text \<open>
  \<^verbatim>\<open>new User({ email, password }).save()\<close>: both values are cast to strings and the
  setters run on the email; a value that does not cast, \<^verbatim>\<open>null\<close> and the empty string
  fail the validation (both paths are required); the \<^verbatim>\<open>pre('save')\<close> hook replaces
  the password by its hash; and the unique index on \<^verbatim>\<open>email\<close> rejects the insert
  with a duplicate key error (code 11000).
\<close>

definition User_save :: "(string \<Rightarrow> string) \<Rightarrow> db \<Rightarrow> json \<Rightarrow> json \<Rightarrow> save_error + db" where
  "User_save hash s email_value password_value =
     (case castString email_value of
        Casted (Some e) \<Rightarrow>
          (case castString password_value of
             Casted (Some p) \<Rightarrow>
               (let e' = email_setters e in
                if e' = [] \<or> p = [] then Inl ValidationError
                else if list_ex (\<lambda>u. email u = e') (users s) then Inl DuplicateKey
                else Inr (s\<lparr>users := users s @
                                      [\<lparr>user_id = next_id s, email = e', password = hash p\<rparr>],
                            next_id := Suc (next_id s)\<rparr>))
           | _ \<Rightarrow> Inl ValidationError)
      | _ \<Rightarrow> Inl ValidationError)"

record credentials =
  req_email :: "json option"
  req_password :: "json option"

text \<open>\<^verbatim>\<open>POST /api/register\<close>; 201 on success.\<close>

definition register :: "(string \<Rightarrow> string) \<Rightarrow> db \<Rightarrow> credentials \<Rightarrow> (failure + string) \<times> db" where
  "register hash s body =
     (if js_not (req_email body) \<or> js_not (req_password body) \<or> length_less (req_password body) 6
      then (Inl (Message 400 ''Invalid email or password (must be at least 6 characters).''), s)
      else (case User_save hash s (the (req_email body)) (the (req_password body)) of
              Inr s' \<Rightarrow> (Inr ''User created successfully.'', s')
            | Inl DuplicateKey \<Rightarrow> (Inl (Message 409 ''Email already exists.''), s)
            | Inl ValidationError \<Rightarrow> (Inl (Message 500 ''Server error during registration.''), s)))"

text \<open>\<^verbatim>\<open>User.findOne({ email })\<close>; the setters of the path run on the filter too.\<close>

definition User_findOne :: "db \<Rightarrow> string \<Rightarrow> user_doc option" where
  "User_findOne s e = find (\<lambda>u. email u = email_setters e) (users s)"

record token_payload =
  payload_id :: objectid
  payload_email :: string

text \<open>
  \<^verbatim>\<open>POST /api/login\<close>; 200 with the token on success. \<open>compare\<close> is
  \<^verbatim>\<open>bcrypt.compare\<close>, which rejects a candidate that is not a string (an absent
  password, a number), and the handler then answers 500; \<open>sign\<close> is \<^verbatim>\<open>jwt.sign\<close> with
  the server's secret and the seven days. The email is a string.
\<close>

definition login ::
  "(string \<Rightarrow> string \<Rightarrow> bool) \<Rightarrow> (token_payload \<Rightarrow> string) \<Rightarrow> db \<Rightarrow> string \<Rightarrow> json option
     \<Rightarrow> failure + string" where
  "login compare sign s e pw =
     (case User_findOne s e of
        None \<Rightarrow> Inl (Message 401 ''Invalid credentials.'')
      | Some u \<Rightarrow>
          (case pw of
             Some (JString p) \<Rightarrow>
               if compare p (password u)
               then Inr (sign \<lparr>payload_id = user_id u, payload_email = email u\<rparr>)
               else Inl (Message 401 ''Invalid credentials.'')
           | _ \<Rightarrow> Inl (Message 500 ''Server error during login.'')))"

subsection \<open>The access guard\<close>

record request =
  authorization :: "string option"
  req_user :: "token_payload option"

datatype jwt_error = JsonWebTokenError | TokenExpiredError | NotBeforeError

text \<open>\<^verbatim>\<open>authHeader && authHeader.split(' ')[1]\<close>: an absent header gives
  \<^verbatim>\<open>undefined\<close>, an empty one gives itself.\<close>

definition bearer_token :: "string option \<Rightarrow> string option" where
  "bearer_token authHeader =
     (case authHeader of
        None \<Rightarrow> None
      | Some h \<Rightarrow> if h = [] then Some [] else index (split_space h) 1)"

text \<open>\<open>Inl\<close> is the status sent; \<open>Inr\<close> is the request handed to \<^verbatim>\<open>next()\<close>.\<close>

definition authenticateToken ::
  "(string \<Rightarrow> jwt_error + token_payload) \<Rightarrow> request \<Rightarrow> failure + request" where
  "authenticateToken verify req =
     (case bearer_token (authorization req) of
        None \<Rightarrow> Inl (SendStatus 401)
      | Some token \<Rightarrow>
          (case verify token of
             Inl err \<Rightarrow> Inl (SendStatus 403)
           | Inr decoded \<Rightarrow> Inr (req\<lparr>req_user := Some decoded\<rparr>)))"

subsection \<open>Books\<close>

text \<open>
  The body of a book request: the paths of \<^verbatim>\<open>BookSchema\<close> a client can send, each
  absent or a string. Keys that are no path of the schema are dropped by Mongoose, and
  update operators, \<^verbatim>\<open>_id\<close> and the two timestamps as keys are not modelled.
\<close>

record book_body =
  body_user :: "string option"
  body_title :: "string option"
  body_author :: "string option"
  body_isbn :: "string option"
  body_date_purchased :: "string option"
  body_publisher :: "string option"
  body_notes :: "string option"

text \<open>\<^verbatim>\<open>Book.find({ user }).sort({ createdAt: -1 })\<close>; documents created at the same
  instant stay in insertion order.\<close>

definition list_books :: "db \<Rightarrow> objectid \<Rightarrow> book_doc list" where
  "list_books s caller =
     sort_key (\<lambda>b. - createdAt b) (filter (\<lambda>b. user b = caller) (books s))"

text \<open>\<^verbatim>\<open>Book.findOne({ isbn, user })\<close>.\<close>

definition Book_findOne :: "db \<Rightarrow> string \<Rightarrow> objectid \<Rightarrow> book_doc option" where
  "Book_findOne s i caller = find (\<lambda>b. isbn b = i \<and> user b = caller) (books s)"

text \<open>
  \<^verbatim>\<open>new Book({ ...req.body, user: req.user.id }).save()\<close>: the caller's identity
  replaces whatever \<^verbatim>\<open>user\<close> the body carries; a date that does not cast fails the
  validation; \<^verbatim>\<open>timestamps\<close> sets both instants to the time of the save.
\<close>

definition Book_save ::
  "(string \<Rightarrow> date option casted) \<Rightarrow> date \<Rightarrow> db \<Rightarrow> objectid \<Rightarrow> book_body
     \<Rightarrow> save_error + book_doc \<times> db" where
  "Book_save castDate now s caller body =
     (case cast_field castDate (body_date_purchased body) of
        CastError \<Rightarrow> Inl ValidationError
      | Casted d \<Rightarrow>
          (let newBook = \<lparr>book_id = next_id s, user = caller,
                 title = the (body_title body), author = the (body_author body),
                 isbn = the (body_isbn body), date_purchased = (case d of None \<Rightarrow> None | Some x \<Rightarrow> x),
                 publisher = body_publisher body, book_notes = body_notes body,
                 createdAt = now, updatedAt = now\<rparr>
           in Inr (newBook, s\<lparr>books := books s @ [newBook], next_id := Suc (next_id s)\<rparr>)))"

text \<open>\<^verbatim>\<open>POST /api/books\<close>; 201 with the new document on success.\<close>

definition add_book ::
  "(string \<Rightarrow> date option casted) \<Rightarrow> date \<Rightarrow> db \<Rightarrow> objectid \<Rightarrow> book_body
     \<Rightarrow> (failure + book_doc) \<times> db" where
  "add_book castDate now s caller body =
     (if falsy (body_title body) \<or> falsy (body_author body) \<or> falsy (body_isbn body)
      then (Inl (Message 400 ''Title, Author, and ISBN are required.''), s)
      else (case Book_findOne s (the (body_isbn body)) caller of
              Some existingBook \<Rightarrow>
                (Inl (MessageBook 409
                        (''You already own this book (ISBN: '' @ the (body_isbn body) @ '').'')
                        existingBook), s)
            | None \<Rightarrow>
                (case Book_save castDate now s caller body of
                   Inl err \<Rightarrow> (Inl (Message 500 ''Failed to add book.''), s)
                 | Inr (newBook, s') \<Rightarrow> (Inr newBook, s'))))"

text \<open>The first element that satisfies \<open>P\<close>, replaced or removed: one document per call.\<close>

fun replace_first :: "('a \<Rightarrow> bool) \<Rightarrow> 'a \<Rightarrow> 'a list \<Rightarrow> 'a list" where
  "replace_first P y [] = []"
| "replace_first P y (x # xs) = (if P x then y # xs else x # replace_first P y xs)"

fun delete_first :: "('a \<Rightarrow> bool) \<Rightarrow> 'a list \<Rightarrow> 'a list" where
  "delete_first P [] = []"
| "delete_first P (x # xs) = (if P x then xs else x # delete_first P xs)"

text \<open>
  The update document \<^verbatim>\<open>req.body\<close> has no operator, so Mongoose sets every path it
  holds (\<^verbatim>\<open>$set\<close>) and, the schema having \<^verbatim>\<open>timestamps\<close>, \<^verbatim>\<open>updatedAt\<close>.
\<close>

definition set_paths :: "objectid option \<Rightarrow> date option option \<Rightarrow> book_body \<Rightarrow> date \<Rightarrow> book_doc \<Rightarrow> book_doc" where
  "set_paths u d body now b =
     b\<lparr>user := (case u of None \<Rightarrow> user b | Some x \<Rightarrow> x),
       title := (case body_title body of None \<Rightarrow> title b | Some x \<Rightarrow> x),
       author := (case body_author body of None \<Rightarrow> author b | Some x \<Rightarrow> x),
       isbn := (case body_isbn body of None \<Rightarrow> isbn b | Some x \<Rightarrow> x),
       date_purchased := (case d of None \<Rightarrow> date_purchased b | Some x \<Rightarrow> x),
       publisher := (case body_publisher body of None \<Rightarrow> publisher b | Some x \<Rightarrow> Some x),
       book_notes := (case body_notes body of None \<Rightarrow> book_notes b | Some x \<Rightarrow> Some x),
       updatedAt := now\<rparr>"

text \<open>
  \<^verbatim>\<open>Book.findOneAndUpdate({ _id, user }, req.body, { new: true })\<close>: the filter and
  the update are cast first (\<open>Inl\<close> is the \<^verbatim>\<open>CastError\<close> thrown), then the first
  document that matches is updated and returned; \<open>None\<close> is \<^verbatim>\<open>null\<close>.
\<close>

definition Book_findOneAndUpdate ::
  "(string \<Rightarrow> objectid casted) \<Rightarrow> (string \<Rightarrow> date option casted) \<Rightarrow> date \<Rightarrow> db \<Rightarrow> string \<Rightarrow> objectid
     \<Rightarrow> book_body \<Rightarrow> unit + book_doc option \<times> db" where
  "Book_findOneAndUpdate castObjectId castDate now s bid caller body =
     (case castObjectId bid of
        CastError \<Rightarrow> Inl ()
      | Casted i \<Rightarrow>
          (case cast_field castObjectId (body_user body) of
             CastError \<Rightarrow> Inl ()
           | Casted u \<Rightarrow>
               (case cast_field castDate (body_date_purchased body) of
                  CastError \<Rightarrow> Inl ()
                | Casted d \<Rightarrow>
                    (case find (\<lambda>b. book_id b = i \<and> user b = caller) (books s) of
                       None \<Rightarrow> Inr (None, s)
                     | Some b \<Rightarrow>
                         (let b' = set_paths u d body now b
                          in Inr (Some b',
                                  s\<lparr>books := replace_first (\<lambda>b. book_id b = i \<and> user b = caller)
                                                 b' (books s)\<rparr>))))))"

text \<open>\<^verbatim>\<open>PUT /api/books/:id\<close>; 200 with the updated document on success.\<close>

definition update_book ::
  "(string \<Rightarrow> objectid casted) \<Rightarrow> (string \<Rightarrow> date option casted) \<Rightarrow> date \<Rightarrow> db \<Rightarrow> objectid \<Rightarrow> string
     \<Rightarrow> book_body \<Rightarrow> (failure + book_doc) \<times> db" where
  "update_book castObjectId castDate now s caller bid body =
     (case Book_findOneAndUpdate castObjectId castDate now s bid caller body of
        Inl err \<Rightarrow> (Inl (Message 500 ''Failed to update book.''), s)
      | Inr (None, s') \<Rightarrow> (Inl (Message 404 ''Book not found or you do not have permission.''), s')
      | Inr (Some updatedBook, s') \<Rightarrow> (Inr updatedBook, s'))"

text \<open>\<^verbatim>\<open>Book.findOneAndDelete({ _id, user })\<close>.\<close>

definition Book_findOneAndDelete ::
  "(string \<Rightarrow> objectid casted) \<Rightarrow> db \<Rightarrow> string \<Rightarrow> objectid \<Rightarrow> unit + book_doc option \<times> db" where
  "Book_findOneAndDelete castObjectId s bid caller =
     (case castObjectId bid of
        CastError \<Rightarrow> Inl ()
      | Casted i \<Rightarrow>
          (case find (\<lambda>b. book_id b = i \<and> user b = caller) (books s) of
             None \<Rightarrow> Inr (None, s)
           | Some b \<Rightarrow>
               Inr (Some b,
                    s\<lparr>books := delete_first (\<lambda>b. book_id b = i \<and> user b = caller) (books s)\<rparr>)))"

text \<open>\<^verbatim>\<open>DELETE /api/books/:id\<close>; 204 with no body on success.\<close>

definition remove_book ::
  "(string \<Rightarrow> objectid casted) \<Rightarrow> db \<Rightarrow> objectid \<Rightarrow> string \<Rightarrow> (failure + unit) \<times> db" where
  "remove_book castObjectId s caller bid =
     (case Book_findOneAndDelete castObjectId s bid caller of
        Inl err \<Rightarrow> (Inl (Message 500 ''Failed to delete book.''), s)
      | Inr (None, s') \<Rightarrow> (Inl (Message 404 ''Book not found or you do not have permission.''), s')
      | Inr (Some deletedBook, s') \<Rightarrow> (Inr (), s'))"

subsection \<open>Search\<close>

text \<open>
  \<^verbatim>\<open>new RegExp(query, 'i')\<close> reads the query as a pattern. The fragment embedded
  here is a sequence of ordinary characters and dots; \<open>RegExp\<close> is \<open>None\<close> on a query
  with any other syntax character, whose meaning (or \<^verbatim>\<open>SyntaxError\<close>) is outside the
  fragment. Under the flag \<^verbatim>\<open>i\<close> two characters match when their upper cases agree;
  a dot matches every character but a line feed.
\<close>

datatype atom = Lit char | Dot

definition syntax_character :: "char \<Rightarrow> bool" where
  "syntax_character c =
     (c \<in> set [CHR ''^'', CHR ''$'', CHR 0x5C, CHR ''.'', CHR ''*'', CHR ''+'', CHR ''?'',
                CHR ''('', CHR '')'', CHR ''['', CHR '']'', CHR ''{'', CHR ''}'', CHR ''|''])"

fun RegExp :: "string \<Rightarrow> atom list option" where
  "RegExp [] = Some []"
| "RegExp (c # cs) =
     (case RegExp cs of
        None \<Rightarrow> None
      | Some r \<Rightarrow>
          if c = CHR ''.'' then Some (Dot # r)
          else if syntax_character c then None
          else Some (Lit c # r))"

fun atom_matches :: "atom \<Rightarrow> char \<Rightarrow> bool" where
  "atom_matches (Lit x) c = (toUpperCase_char x = toUpperCase_char c)"
| "atom_matches Dot c = (c \<noteq> CHR 0x0A)"

fun match_here :: "atom list \<Rightarrow> string \<Rightarrow> bool" where
  "match_here [] s = True"
| "match_here (a # r) [] = False"
| "match_here (a # r) (c # cs) = (atom_matches a c \<and> match_here r cs)"

text \<open>An unanchored match: the pattern matches at some position of the text.\<close>

fun regex_test :: "atom list \<Rightarrow> string \<Rightarrow> bool" where
  "regex_test r [] = match_here r []"
| "regex_test r (c # cs) = (match_here r (c # cs) \<or> regex_test r cs)"

text \<open>\<^verbatim>\<open>GET /api/search\<close>; 200 with the documents found, in insertion order.\<close>

definition search_books :: "db \<Rightarrow> objectid \<Rightarrow> string option \<Rightarrow> (failure + book_doc list) option" where
  "search_books s caller query =
     (if falsy query then Some (Inl (Message 400 ''Search query is required.''))
      else (case RegExp (the query) of
              None \<Rightarrow> None
            | Some searchRegex \<Rightarrow>
                Some (Inr (filter (\<lambda>b. user b = caller \<and>
                                       (regex_test searchRegex (title b) \<or>
                                        regex_test searchRegex (author b) \<or>
                                        regex_test searchRegex (isbn b)))
                                  (books s)))))"

text \<open>
  The specification's words, for comparison: a text contains a query as a
  case-insensitive substring when the lower-cased query occurs in the lower-cased text.
\<close>

fun contains :: "'a list \<Rightarrow> 'a list \<Rightarrow> bool" where
  "contains q [] = (q = [])"
| "contains q (c # cs) = (take (length q) (c # cs) = q \<or> contains q cs)"

definition contains_ci :: "string \<Rightarrow> string \<Rightarrow> bool" where
  "contains_ci q s = contains (toLowerCase q) (toLowerCase s)"

definition spec_search :: "db \<Rightarrow> objectid \<Rightarrow> string \<Rightarrow> book_doc list" where
  "spec_search s caller q =
     filter (\<lambda>b. user b = caller \<and>
                 (contains_ci q (title b) \<or> contains_ci q (author b) \<or> contains_ci q (isbn b)))
            (books s)"

subsection \<open>Invariants\<close>

text \<open>No user holds two books with one ISBN.\<close>

definition isbn_unique :: "db \<Rightarrow> bool" where
  "isbn_unique s = distinct (map (\<lambda>b. (user b, isbn b)) (books s))"

text \<open>The \<^verbatim>\<open>_id\<close> index of the collection: identifiers are distinct and were all
  handed out already.\<close>

definition ids_fresh :: "db \<Rightarrow> bool" where
  "ids_fresh s = (distinct (map book_id (books s)) \<and> list_all (\<lambda>b. book_id b < next_id s) (books s))"

subsection \<open>Instances of the library functions, for the examples\<close>

text \<open>A string casts to an ObjectId when it is 24 hexadecimal digits; the identifier is
  the number they write.\<close>

definition hex_digit :: "char \<Rightarrow> nat option" where
  "hex_digit c =
     (let n = (of_char c :: nat) in
      if 48 \<le> n \<and> n \<le> 57 then Some (n - 48)
      else if 97 \<le> n \<and> n \<le> 102 then Some (n - 87)
      else if 65 \<le> n \<and> n \<le> 70 then Some (n - 55)
      else None)"

fun hex_value :: "nat \<Rightarrow> string \<Rightarrow> nat option" where
  "hex_value acc [] = Some acc"
| "hex_value acc (c # cs) =
     (case hex_digit c of None \<Rightarrow> None | Some d \<Rightarrow> hex_value (16 * acc + d) cs)"

definition ObjectId :: "string \<Rightarrow> objectid casted" where
  "ObjectId v =
     (if length v = 24
      then (case hex_value 0 v of None \<Rightarrow> CastError | Some n \<Rightarrow> Casted n)
      else CastError)"

text \<open>The date cast on the one string the examples need: the empty string is
  \<^verbatim>\<open>null\<close>. The examples send no other date.\<close>

definition castDate_empty :: "string \<Rightarrow> date option casted" where
  "castDate_empty v = (if v = [] then Casted None else CastError)"

definition no_fields :: book_body where
  "no_fields = \<lparr>body_user = None, body_title = None, body_author = None, body_isbn = None,
                 body_date_purchased = None, body_publisher = None, body_notes = None\<rparr>"

definition empty_db :: db where
  "empty_db = \<lparr>users = [], books = [], next_id = 0\<rparr>"

text \<open>Stand-ins for bcrypt and jsonwebtoken in the examples. The theorems hold for every
  hash, comparison, signature and verification.\<close>

definition example_hash :: "string \<Rightarrow> string" where
  "example_hash p = ''$2a$10$'' @ rev p"

definition example_compare :: "string \<Rightarrow> string \<Rightarrow> bool" where
  "example_compare p h = (h = example_hash p)"

definition example_sign :: "token_payload \<Rightarrow> string" where
  "example_sign t = ''jwt.'' @ payload_email t"

definition example_verify :: "string \<Rightarrow> jwt_error + token_payload" where
  "example_verify token =
     (if token = ''good'' then Inr \<lparr>payload_id = 0, payload_email = ''ann@x.org''\<rparr>
      else if token = ''old'' then Inl TokenExpiredError
      else Inl JsonWebTokenError)"

subsection \<open>An example database\<close>

text \<open>Ann and Bob register; Ann adds two books, at the instants 10 and 20.\<close>

definition ann_credentials :: credentials where
  "ann_credentials =
     \<lparr>req_email = Some (JString ''Ann@X.org''), req_password = Some (JString ''secret1'')\<rparr>"

definition bob_credentials :: credentials where
  "bob_credentials =
     \<lparr>req_email = Some (JString ''bob@x.org''), req_password = Some (JString ''secret2'')\<rparr>"

definition users_db :: db where
  "users_db =
     \<lparr>users = [\<lparr>user_id = 0, email = ''ann@x.org'', password = example_hash ''secret1''\<rparr>,
               \<lparr>user_id = 1, email = ''bob@x.org'', password = example_hash ''secret2''\<rparr>],
      books = [], next_id = 2\<rparr>"

definition dune_body :: book_body where
  "dune_body = no_fields\<lparr>body_title := Some ''Dune'', body_author := Some ''Herbert'',
                          body_isbn := Some ''111''\<rparr>"

definition emma_body :: book_body where
  "emma_body = no_fields\<lparr>body_title := Some ''Emma'', body_author := Some ''Austen'',
                          body_isbn := Some ''222''\<rparr>"

definition dune :: book_doc where
  "dune = \<lparr>book_id = 2, user = 0, title = ''Dune'', author = ''Herbert'', isbn = ''111'',
            date_purchased = None, publisher = None, book_notes = None,
            createdAt = 10, updatedAt = 10\<rparr>"

definition emma :: book_doc where
  "emma = \<lparr>book_id = 3, user = 0, title = ''Emma'', author = ''Austen'', isbn = ''222'',
            date_purchased = None, publisher = None, book_notes = None,
            createdAt = 20, updatedAt = 20\<rparr>"

definition two_books_db :: db where
  "two_books_db = users_db\<lparr>books := [dune, emma], next_id := 4\<rparr>"

section \<open>Auxiliary facts\<close>

subsection \<open>Characters and evaluation\<close>

lemma char_eq_char_of: "(c = char_of (n :: nat)) = (take_bit 8 n = of_char c)"
  using char_of_eq_iff [of n c] by auto

lemmas eval_chars = toLowerCase_def toLowerCase_char_def toUpperCase_char_def is_space_def Let_def
  char_of_eq_iff char_eq_char_of

lemma of_char_toUpperCase_char:
  "(of_char (toUpperCase_char c) :: nat) =
     (if 97 \<le> (of_char c :: nat) \<and> (of_char c :: nat) \<le> 122 then of_char c - 32 else of_char c)"
proof -
  have "(of_char c :: nat) - 32 < 256"
    using nat_of_char_less_256 [of c] by arith
  then have "((of_char c :: nat) - 32) mod 256 = of_char c - 32"
    by (rule mod_less)
  then show ?thesis by (simp add: toUpperCase_char_def Let_def)
qed

lemma of_char_toLowerCase_char:
  "(of_char (toLowerCase_char c) :: nat) =
     (if 65 \<le> (of_char c :: nat) \<and> (of_char c :: nat) \<le> 90 then of_char c + 32 else of_char c)"
  by (simp add: toLowerCase_char_def Let_def)

lemma fold_codes:
  fixes m n :: nat
  shows "((if 97 \<le> m \<and> m \<le> 122 then m - 32 else m) = (if 97 \<le> n \<and> n \<le> 122 then n - 32 else n)) =
         ((if 65 \<le> m \<and> m \<le> 90 then m + 32 else m) = (if 65 \<le> n \<and> n \<le> 90 then n + 32 else n))"
  by (simp split: if_splits) arith

text \<open>Two characters have one upper case exactly when they have one lower case.\<close>

lemma same_case_fold:
  "(toUpperCase_char a = toUpperCase_char b) = (toLowerCase_char a = toLowerCase_char b)"
proof -
  have up: "(toUpperCase_char a = toUpperCase_char b) =
        ((of_char (toUpperCase_char a) :: nat) = of_char (toUpperCase_char b))"
    by simp
  have low: "(toLowerCase_char a = toLowerCase_char b) =
        ((of_char (toLowerCase_char a) :: nat) = of_char (toLowerCase_char b))"
    by simp
  show ?thesis
    unfolding up low of_char_toUpperCase_char of_char_toLowerCase_char
    by (rule fold_codes)
qed

lemma decimal_nat_12: "decimal_nat 12 = ''12''"
  by (simp add: decimal_nat.simps digit_char_def char_of_eq_iff)

lemma decimal_nat_not_Nil: "decimal_nat n \<noteq> []"
  by (subst decimal_nat.simps) simp

lemma Number_toString_not_Nil: "Number_toString n \<noteq> []"
  by (simp add: Number_toString_def decimal_nat_not_Nil)

lemma ObjectId_1: "ObjectId ''000000000000000000000001'' = Casted 1"
  by (simp add: ObjectId_def hex_digit_def Let_def)

lemma ObjectId_3: "ObjectId ''000000000000000000000003'' = Casted 3"
  by (simp add: ObjectId_def hex_digit_def Let_def)



subsection \<open>The example database is one the handlers build\<close>

lemma users_db_reachable:
  "snd (register example_hash (snd (register example_hash empty_db ann_credentials)) bob_credentials)
     = users_db"
  by (simp add: register_def User_save_def empty_db_def ann_credentials_def
      bob_credentials_def users_db_def email_setters_def trim_def eval_chars)

lemma two_books_db_reachable:
  "snd (add_book castDate_empty 20 (snd (add_book castDate_empty 10 users_db 0 dune_body)) 0 emma_body)
     = two_books_db"
  by (simp add: add_book_def Book_save_def Book_findOne_def falsy_def cast_field_def users_db_def
      dune_body_def emma_body_def no_fields_def two_books_db_def dune_def emma_def Let_def)

subsection \<open>Search on a query without syntax characters\<close>

text \<open>\<open>contains\<close> is the usual notion of a contiguous sublist.\<close>

lemma contains_iff: "contains q s = (\<exists>ys zs. s = ys @ q @ zs)"
proof (induction s)
  case Nil
  then show ?case by auto
next
  case (Cons c cs)
  have here: "(take (length q) (c # cs) = q) = (\<exists>zs. c # cs = q @ zs)"
    by (metis append_eq_conv_conj)
  have "(\<exists>ys zs. c # cs = ys @ q @ zs) =
        ((\<exists>zs. c # cs = q @ zs) \<or> (\<exists>ys zs. cs = ys @ q @ zs))"
  proof
    assume "\<exists>ys zs. c # cs = ys @ q @ zs"
    then show "(\<exists>zs. c # cs = q @ zs) \<or> (\<exists>ys zs. cs = ys @ q @ zs)"
      by (metis append_Nil append_eq_Cons_conv)
  next
    assume "(\<exists>zs. c # cs = q @ zs) \<or> (\<exists>ys zs. cs = ys @ q @ zs)"
    then show "\<exists>ys zs. c # cs = ys @ q @ zs"
      by (metis append_Cons append_Nil)
  qed
  with here Cons show ?case by simp
qed

lemma RegExp_literal:
  "\<forall>c\<in>set q. \<not> syntax_character c \<Longrightarrow> RegExp q = Some (map Lit q)"
  by (induction q) (auto simp: syntax_character_def)

lemma match_here_literal:
  "match_here (map Lit q) s = (take (length q) (toLowerCase s) = toLowerCase q)"
proof (induction q arbitrary: s)
  case Nil
  then show ?case by (simp add: toLowerCase_def)
next
  case (Cons a q)
  show ?case
  proof (cases s)
    case Nil
    then show ?thesis by (simp add: toLowerCase_def)
  next
    case (Cons c cs)
    then show ?thesis
      using Cons.IH [of cs] by (auto simp: toLowerCase_def same_case_fold)
  qed
qed

lemma regex_test_literal: "regex_test (map Lit q) s = contains_ci q s"
proof (induction s)
  case Nil
  then show ?case by (cases q) (auto simp: contains_ci_def toLowerCase_def)
next
  case (Cons c cs)
  have "match_here (map Lit q) (c # cs) =
          (take (length (toLowerCase q)) (toLowerCase (c # cs)) = toLowerCase q)"
    by (simp only: match_here_literal) (simp add: toLowerCase_def)
  then show ?case using Cons by (simp add: contains_ci_def toLowerCase_def)
qed

lemma spec_search_dune: "spec_search two_books_db 0 ''dUnE'' = [dune]"
  by (simp add: spec_search_def contains_ci_def two_books_db_def users_db_def dune_def emma_def
      eval_chars)

lemma spec_search_none: "spec_search two_books_db 0 ''zzz'' = []"
  by (simp add: spec_search_def contains_ci_def two_books_db_def users_db_def dune_def emma_def
      eval_chars)

subsection \<open>Users\<close>

lemma email_setters_Nil: "email_setters [] = []"
  by (simp add: email_setters_def trim_def toLowerCase_def)

lemma User_save_email:
  assumes "User_save hash s v pv = Inr s'"
  shows "\<exists>e. castString v = Casted (Some e) \<and> email_setters e \<noteq> [] \<and>
             list_ex (\<lambda>u. email u = email_setters e) (users s')"
  using assms
  by (auto simp: User_save_def Let_def list_ex_iff
      split: if_splits casted.splits option.splits)

text \<open>A value that passes \<^verbatim>\<open>!v\<close> and casts to a string casts to a non-empty one.\<close>

lemma castString_not_Nil:
  assumes "\<not> js_not (Some v)" and "castString v = Casted (Some p)"
  shows "p \<noteq> []"
  using assms by (cases v) (auto simp: Number_toString_not_Nil split: if_splits)

text \<open>With string passwords the guard of the registration rejects the short ones.\<close>

lemma register_short_string:
  assumes "req_email body = None \<or> req_password body = None \<or>
           (\<exists>p. req_password body = Some (JString p) \<and> length p < 6)"
  shows "register hash s body =
           (Inl (Message 400 ''Invalid email or password (must be at least 6 characters).''), s)"
  using assms by (auto simp: register_def)

text \<open>With a string password, a wrong password for a stored email and any password for
  an unknown email are answered alike.\<close>

lemma login_wrong_string_password:
  assumes "User_findOne s e = Some u" and "\<not> compare p (password u)"
      and "User_findOne s e' = None"
  shows "login compare sign s e (Some (JString p)) = Inl (Message 401 ''Invalid credentials.'') \<and>
         login compare sign s e' pw' = login compare sign s e (Some (JString p))"
  using assms by (simp add: login_def)

lemma User_findOne_ann:
  "User_findOne users_db ''ann@x.org''
     = Some \<lparr>user_id = 0, email = ''ann@x.org'', password = example_hash ''secret1''\<rparr>"
  by (simp add: User_findOne_def users_db_def email_setters_def trim_def eval_chars)

lemma User_findOne_eve: "User_findOne users_db ''eve@x.org'' = None"
  by (simp add: User_findOne_def users_db_def email_setters_def trim_def eval_chars)

subsection \<open>The access guard\<close>

lemma length_split_space: "length (split_space h) = Suc (length (filter (\<lambda>c. c = CHR '' '') h))"
  by (induction h) (auto split: list.splits)

lemma bearer_token_None:
  "(bearer_token hdr = None) = (hdr = None \<or> (\<exists>h. hdr = Some h \<and> h \<noteq> [] \<and> CHR '' '' \<notin> set h))"
proof (cases hdr)
  case None
  then show ?thesis by (simp add: bearer_token_def)
next
  case (Some h)
  have "(length (filter (\<lambda>c. c = CHR '' '') h) = 0) = (CHR '' '' \<notin> set h)"
    by (auto simp: filter_empty_conv)
  then show ?thesis using Some
    by (auto simp: bearer_token_def index_def length_split_space)
qed

subsection \<open>One document per update and per delete\<close>


lemma replace_first_map:
  assumes "distinct (map f xs)" and "\<And>x. P x \<Longrightarrow> f x = i" and "find P xs = Some b"
  shows "replace_first P y xs = map (\<lambda>c. if f c = i then y else c) xs"
  using assms(1,3)
proof (induction xs)
  case Nil
  then show ?case by simp
next
  case (Cons x xs)
  show ?case
  proof (cases "P x")
    case True
    then have fx: "f x = i" by (rule assms(2))
    moreover from Cons.prems have "f x \<notin> f ` set xs" by simp
    ultimately have "\<forall>c\<in>set xs. f c \<noteq> i" by (metis image_eqI)
    then have "map (\<lambda>c. if f c = i then y else c) xs = xs"
      by (induction xs) auto
    with True fx show ?thesis by simp
  next
    case False
    from Cons.prems False have found: "find P xs = Some b" by simp
    have "f x \<noteq> i"
    proof
      assume "f x = i"
      from found obtain j where "j < length xs" and "P (xs ! j)" and "b = xs ! j"
        by (auto simp: find_Some_iff)
      then have "b \<in> set xs" and "f b = i" using assms(2) by auto
      with \<open>f x = i\<close> Cons.prems(1) show False by (auto simp: image_iff)
    qed
    with False Cons found show ?thesis by simp
  qed
qed

lemma map_replace_first_id:
  assumes "\<And>x. P x \<Longrightarrow> f y = f x"
  shows "map f (replace_first P y xs) = map f xs"
  by (induction xs) (auto simp: assms)

lemma set_delete_first: "set (delete_first P xs) \<subseteq> set xs"
  by (induction xs) auto

lemma distinct_delete_first: "distinct (map f xs) \<Longrightarrow> distinct (map f (delete_first P xs))"
proof (induction xs)
  case Nil
  then show ?case by simp
next
  case (Cons x xs)
  have "f ` set (delete_first P xs) \<subseteq> f ` set xs"
    using set_delete_first [of P xs] by blast
  with Cons show ?case by auto
qed

lemma set_list_books: "set (list_books s u) = {b \<in> set (books s). user b = u}"
  by (auto simp: list_books_def)

text \<open>What a successful update did.\<close>

lemma update_book_success:
  assumes "update_book castObjectId castDate now s caller bid body = (Inr b', s')"
  shows "\<exists>i u d b.
           castObjectId bid = Casted i \<and>
           cast_field castObjectId (body_user body) = Casted u \<and>
           cast_field castDate (body_date_purchased body) = Casted d \<and>
           find (\<lambda>b. book_id b = i \<and> user b = caller) (books s) = Some b \<and>
           b' = set_paths u d body now b \<and>
           s' = s\<lparr>books := replace_first (\<lambda>b. book_id b = i \<and> user b = caller) b' (books s)\<rparr>"
  using assms
  by (auto simp: update_book_def Book_findOneAndUpdate_def Let_def
      split: casted.splits option.splits sum.splits prod.splits)

lemma update_book_failure:
  assumes "update_book castObjectId castDate now s caller bid body = (Inl f, s')"
  shows "s' = s"
  using assms
  by (auto simp: update_book_def Book_findOneAndUpdate_def Let_def
      split: casted.splits option.splits sum.splits prod.splits)

subsection \<open>The identifiers stay distinct\<close>

lemma ids_fresh_empty_db: "ids_fresh empty_db"
  by (simp add: ids_fresh_def empty_db_def)

lemma ids_fresh_two_books_db: "ids_fresh two_books_db"
  by (simp add: ids_fresh_def two_books_db_def users_db_def dune_def emma_def)

lemma register_ids_fresh:
  assumes "ids_fresh s"
  shows "ids_fresh (snd (register hash s body))"
proof -
  from assms have "list_all (\<lambda>b. book_id b < Suc (next_id s)) (books s)"
    by (auto simp: ids_fresh_def list_all_iff less_Suc_eq)
  with assms show ?thesis
    by (auto simp: register_def User_save_def Let_def ids_fresh_def
        split: sum.splits save_error.splits if_splits casted.splits option.splits)
qed

lemma add_book_ids_fresh:
  assumes "ids_fresh s"
  shows "ids_fresh (snd (add_book castDate now s caller body))"
proof -
  from assms have "next_id s \<notin> book_id ` set (books s)"
    by (auto simp: ids_fresh_def list_all_iff)
  moreover from assms have "list_all (\<lambda>b. book_id b < Suc (next_id s)) (books s)"
    by (auto simp: ids_fresh_def list_all_iff less_Suc_eq)
  ultimately show ?thesis using assms
    by (auto simp: add_book_def Book_save_def Let_def ids_fresh_def
        split: option.splits sum.splits casted.splits)
qed

lemma update_book_ids_fresh:
  assumes "ids_fresh s"
  shows "ids_fresh (snd (update_book castObjectId castDate now s caller bid body))"
proof (cases "update_book castObjectId castDate now s caller bid body")
  case (Pair r s')
  show ?thesis
  proof (cases r)
    case (Inl f)
    with Pair have "s' = s" by (simp add: update_book_failure)
    with Pair assms show ?thesis by simp
  next
    case (Inr b')
    from update_book_success [OF Pair [unfolded Inr]]
    obtain i u d b where
      b: "find (\<lambda>b. book_id b = i \<and> user b = caller) (books s) = Some b" and
      b': "b' = set_paths u d body now b" and
      s': "s' = s\<lparr>books := replace_first (\<lambda>b. book_id b = i \<and> user b = caller) b' (books s)\<rparr>"
      by blast
    from b have "book_id b = i" by (auto simp: find_Some_iff)
    then have "book_id b' = i" by (simp add: b' set_paths_def)
    then have "map book_id (replace_first (\<lambda>b. book_id b = i \<and> user b = caller) b' (books s))
                 = map book_id (books s)"
      by (intro map_replace_first_id) simp
    then have "map book_id (books s') = map book_id (books s)"
      by (simp add: s')
    moreover have "next_id s' = next_id s" by (simp add: s')
    moreover have "list_all (\<lambda>b. book_id b < n) xs = list_all (\<lambda>i. i < n) (map book_id xs)"
      for n and xs :: "book_doc list"
      by (simp add: list_all_iff)
    ultimately show ?thesis using assms Pair
      by (simp add: ids_fresh_def)
  qed
qed

lemma remove_book_ids_fresh:
  assumes "ids_fresh s"
  shows "ids_fresh (snd (remove_book castObjectId s caller bid))"
  using assms set_delete_first [of _ "books s"]
  by (auto simp: remove_book_def Book_findOneAndDelete_def ids_fresh_def list_all_iff
      distinct_delete_first split: casted.splits option.splits)

subsection \<open>What adding and removing do to the ISBN rule\<close>

lemma add_book_duplicate_isbn:
  assumes "b \<in> set (books s)" and "user b = caller" and "body_isbn body = Some (isbn b)"
      and "\<not> falsy (body_title body)" and "\<not> falsy (body_author body)" and "isbn b \<noteq> []"
  shows "\<exists>existingBook.
           add_book castDate now s caller body =
             (Inl (MessageBook 409 (''You already own this book (ISBN: '' @ isbn b @ '').'')
                     existingBook), s) \<and>
           existingBook \<in> set (books s) \<and> user existingBook = caller \<and>
           isbn existingBook = isbn b"
proof -
  from assms(1,2) have "find (\<lambda>x. isbn x = isbn b \<and> user x = caller) (books s) \<noteq> None"
    by (auto simp: find_None_iff)
  then obtain e where e: "find (\<lambda>x. isbn x = isbn b \<and> user x = caller) (books s) = Some e"
    by auto
  then have "e \<in> set (books s) \<and> user e = caller \<and> isbn e = isbn b"
    by (auto simp: find_Some_iff)
  with e assms show ?thesis
    by (simp add: add_book_def Book_findOne_def falsy_def)
qed

lemma add_book_isbn_unique:
  assumes "isbn_unique s"
  shows "isbn_unique (snd (add_book castDate now s caller body))"
proof -
  have "(caller, i) \<notin> (\<lambda>b. (user b, isbn b)) ` set (books s)"
    if "Book_findOne s i caller = None" for i
    using that by (auto simp: Book_findOne_def find_None_iff)
  with assms show ?thesis
    by (auto simp: add_book_def Book_save_def Let_def isbn_unique_def
        split: option.splits sum.splits casted.splits)
qed

lemma remove_book_isbn_unique:
  assumes "isbn_unique s"
  shows "isbn_unique (snd (remove_book castObjectId s caller bid))"
  using assms
  by (auto simp: remove_book_def Book_findOneAndDelete_def isbn_unique_def distinct_delete_first
      split: casted.splits option.splits)

section \<open>The claims\<close>

subsection \<open>Books and their ISBN\<close>

text \<open>
  Claim C1 (no user ever holds two books with one ISBN, whatever is added, updated or
  deleted). Adding refuses an ISBN the caller already owns (\<open>add_book_duplicate_isbn\<close>)
  and adding and deleting keep the rule (\<open>add_book_isbn_unique\<close>,
  \<open>remove_book_isbn_unique\<close>), but updating writes the ISBN of the body without
  looking for another book of the caller that has it. In the example database, which
  satisfies the rule, Ann sets the ISBN of her second book to the ISBN of her first: the
  update succeeds and she holds two books with the ISBN 111.
\<close>

theorem update_book_duplicates_isbn:
  "isbn_unique two_books_db \<and>
   map (\<lambda>b. (user b, isbn b))
     (books (snd (update_book ObjectId castDate_empty 30 two_books_db 0
        ''000000000000000000000003'' (no_fields\<lparr>body_isbn := Some ''111''\<rparr>))))
     = [(0, ''111''), (0, ''111'')] \<and>
   \<not> isbn_unique (snd (update_book ObjectId castDate_empty 30 two_books_db 0
        ''000000000000000000000003'' (no_fields\<lparr>body_isbn := Some ''111''\<rparr>)))"
  by (simp add: isbn_unique_def update_book_def Book_findOneAndUpdate_def ObjectId_3 cast_field_def
      set_paths_def two_books_db_def users_db_def dune_def emma_def no_fields_def Let_def)

text \<open>
  Claim C2 (the owner of a book never changes, whatever the body of an update holds).
  The body of an update is the update document, and \<^verbatim>\<open>user\<close> is a path of the schema:
  Ann sends Bob's identifier as \<^verbatim>\<open>user\<close> and her book becomes his. Adding a book
  overwrites the \<^verbatim>\<open>user\<close> of the body with the caller (claim C10); updating does not.
\<close>

theorem update_book_transfers_owner:
  "map user (books two_books_db) = [0, 0] \<and>
   update_book ObjectId castDate_empty 30 two_books_db 0 ''000000000000000000000003''
       (no_fields\<lparr>body_user := Some ''000000000000000000000001''\<rparr>)
     = (Inr (emma\<lparr>user := 1, updatedAt := 30\<rparr>),
        two_books_db\<lparr>books := [dune, emma\<lparr>user := 1, updatedAt := 30\<rparr>]\<rparr>)"
  by (simp add: update_book_def Book_findOneAndUpdate_def ObjectId_3 ObjectId_1 cast_field_def
      set_paths_def two_books_db_def users_db_def dune_def emma_def no_fields_def Let_def)

subsection \<open>Search\<close>

text \<open>
  Claim C3 as stated (search returns the caller's books that contain the query as a
  case-insensitive substring) fails: the query is a pattern. The query of one dot finds
  both of Ann's books, and no title, author or ISBN of hers contains a dot.
\<close>

theorem search_books_dot_counterexample:
  "search_books two_books_db 0 (Some ''.'') = Some (Inr [dune, emma]) \<and>
   spec_search two_books_db 0 ''.'' = []"
  by (simp add: search_books_def spec_search_def falsy_def syntax_character_def contains_ci_def
      two_books_db_def users_db_def dune_def emma_def eval_chars)

text \<open>
  Claim C3, amended: for every user and every non-empty query without a syntax character
  of regular expressions, search answers with exactly the caller's books whose title,
  author or ISBN contains the query as a case-insensitive substring, and with the empty
  list, not with an error, when there is none.
\<close>

theorem search_books_literal:
  assumes "q \<noteq> []" and "\<forall>c\<in>set q. \<not> syntax_character c"
  shows "search_books s caller (Some q) = Some (Inr (spec_search s caller q)) \<and>
         (\<not> (\<exists>b\<in>set (books s). user b = caller \<and>
                (contains_ci q (title b) \<or> contains_ci q (author b) \<or> contains_ci q (isbn b))) \<longrightarrow>
            search_books s caller (Some q) = Some (Inr []))"
proof -
  have found: "search_books s caller (Some q) = Some (Inr (spec_search s caller q))"
    using assms
    by (simp add: search_books_def falsy_def RegExp_literal regex_test_literal spec_search_def)
  have "spec_search s caller q = []"
    if "\<not> (\<exists>b\<in>set (books s). user b = caller \<and>
                (contains_ci q (title b) \<or> contains_ci q (author b) \<or> contains_ci q (isbn b)))"
    using that by (auto simp: spec_search_def filter_empty_conv)
  with found show ?thesis by simp
qed

theorem search_books_literal_witness:
  "''dUnE'' \<noteq> [] \<and> list_all (\<lambda>c. \<not> syntax_character c) ''dUnE'' \<and>
   search_books two_books_db 0 (Some ''dUnE'') = Some (Inr [dune]) \<and>
   list_all (\<lambda>c. \<not> syntax_character c) ''zzz'' \<and>
   search_books two_books_db 0 (Some ''zzz'') = Some (Inr [])"
proof -
  have h: "\<forall>c\<in>set ''dUnE''. \<not> syntax_character c"
    by (simp add: syntax_character_def)
  have ne: "''dUnE'' \<noteq> []" by simp
  have h': "\<forall>c\<in>set ''zzz''. \<not> syntax_character c"
    by (simp add: syntax_character_def)
  have ne': "''zzz'' \<noteq> []" by simp
  show ?thesis
    using h h' search_books_literal [OF ne h, of two_books_db 0]
      search_books_literal [OF ne' h', of two_books_db 0] spec_search_dune spec_search_none
    by (simp add: list_all_iff)
qed

subsection \<open>Login\<close>

text \<open>
  Claim C4 (a failed login never tells whether the email is registered). A wrong string
  password for a stored email is answered like any login with an unknown email
  (\<open>login_wrong_string_password\<close>). Without a password, though, the comparison throws
  for a stored email and the handler answers 500, while an unknown email is answered
  with 401 before the password is looked at: the two replies tell Ann's email, which is
  registered, from Eve's, which is not.
\<close>

theorem login_missing_password_reveals_email:
  "login example_compare example_sign users_db ''ann@x.org'' None
     = Inl (Message 500 ''Server error during login.'') \<and>
   login example_compare example_sign users_db ''eve@x.org'' None
     = Inl (Message 401 ''Invalid credentials.'') \<and>
   login example_compare example_sign users_db ''ann@x.org'' (Some (JNumber 12))
     = Inl (Message 500 ''Server error during login.'') \<and>
   login example_compare example_sign users_db ''eve@x.org'' (Some (JNumber 12))
     = Inl (Message 401 ''Invalid credentials.'')"
  by (simp add: login_def User_findOne_ann User_findOne_eve)

subsection \<open>Registration\<close>

text \<open>
  Claim C7: once an email is registered, registering an email with the same trimmed
  lower-case form fails and leaves the database, and so the first user's record, as it
  was; with a password of six characters or more (one that passes the check made before
  the save) the reply is 409 \<^verbatim>\<open>Email already exists.\<close>
\<close>

theorem register_duplicate_email:
  assumes "register hash1 s \<lparr>req_email = Some v1, req_password = p1\<rparr> = (Inr ok, s1)"
      and "castString v1 = Casted (Some e1)" and "castString v2 = Casted (Some e2)"
      and "email_setters e2 = email_setters e1"
  shows "snd (register hash2 s1 \<lparr>req_email = Some v2, req_password = p2\<rparr>) = s1 \<and>
         (\<exists>f. fst (register hash2 s1 \<lparr>req_email = Some v2, req_password = p2\<rparr>) = Inl f) \<and>
         (\<forall>e p. v2 = JString e \<and> p2 = Some (JString p) \<and> 6 \<le> length p \<longrightarrow>
              fst (register hash2 s1 \<lparr>req_email = Some v2, req_password = p2\<rparr>) =
                Inl (Message 409 ''Email already exists.'')) \<and>
         (\<forall>pv p. js_not (Some v2) = False \<and> p2 = Some pv \<and> js_not p2 = False \<and>
                 length_less p2 6 = False \<and> castString pv = Casted (Some p) \<longrightarrow>
              fst (register hash2 s1 \<lparr>req_email = Some v2, req_password = p2\<rparr>) =
                Inl (Message 409 ''Email already exists.''))"
proof -
  from assms(1) have "User_save hash1 s v1 (the p1) = Inr s1"
    by (auto simp: register_def split: if_splits sum.splits save_error.splits)
  from User_save_email [OF this] assms(2,4)
  have e2: "email_setters e2 \<noteq> []"
    and dup: "list_ex (\<lambda>u. email u = email_setters e2) (users s1)"
    by auto
  have save: "User_save hash2 s1 v2 pv =
                (case castString pv of
                   Casted (Some p) \<Rightarrow> if p = [] then Inl ValidationError else Inl DuplicateKey
                 | _ \<Rightarrow> Inl ValidationError)"
    for pv
    using e2 dup assms(3)
    by (simp add: User_save_def Let_def split: casted.splits option.splits)
  have reply: "register hash2 s1 \<lparr>req_email = Some v2, req_password = p2\<rparr> =
                 (if js_not (Some v2) \<or> js_not p2 \<or> length_less p2 6
                  then Inl (Message 400 ''Invalid email or password (must be at least 6 characters).'')
                  else (case castString (the p2) of
                          Casted (Some p) \<Rightarrow>
                            if p = [] then Inl (Message 500 ''Server error during registration.'')
                            else Inl (Message 409 ''Email already exists.'')
                        | _ \<Rightarrow> Inl (Message 500 ''Server error during registration.'')), s1)"
    by (simp add: register_def save split: casted.splits option.splits)
  from e2 have "e2 \<noteq> []"
    using email_setters_Nil by auto
  with assms(3) have v2: "\<not> js_not (Some v2)" if "v2 = JString e" for e
    using that by auto
  have for_strings: "fst (register hash2 s1 \<lparr>req_email = Some v2, req_password = p2\<rparr>) =
                   Inl (Message 409 ''Email already exists.'')"
    if "v2 = JString e \<and> p2 = Some (JString p) \<and> 6 \<le> length p" for e p
  proof -
    show ?thesis
      unfolding reply using that v2 [of e] by auto
  qed
  have for_values: "fst (register hash2 s1 \<lparr>req_email = Some v2, req_password = p2\<rparr>) =
                   Inl (Message 409 ''Email already exists.'')"
    if "js_not (Some v2) = False \<and> p2 = Some pv \<and> js_not p2 = False \<and>
        length_less p2 6 = False \<and> castString pv = Casted (Some p)"
    for pv p
  proof -
    show ?thesis
      unfolding reply using that castString_not_Nil [of pv p] by auto
  qed
  have "snd (register hash2 s1 \<lparr>req_email = Some v2, req_password = p2\<rparr>) = s1"
    by (simp add: reply)
  moreover have "\<exists>f. fst (register hash2 s1 \<lparr>req_email = Some v2, req_password = p2\<rparr>) = Inl f"
    by (auto simp: reply split: casted.splits option.splits)
  ultimately show ?thesis using for_strings for_values by blast
qed

theorem register_duplicate_email_witness:
  "register example_hash (snd (register example_hash empty_db ann_credentials))
     \<lparr>req_email = Some (JString ''bob@x.org''), req_password = Some (JString ''secret2'')\<rparr>
     = (Inr ''User created successfully.'', users_db) \<and>
   email_setters '' BOB@x.org '' = email_setters ''bob@x.org'' \<and>
   register example_hash users_db
     \<lparr>req_email = Some (JString '' BOB@x.org ''), req_password = Some (JString ''another'')\<rparr>
     = (Inl (Message 409 ''Email already exists.''), users_db)"
proof -
  have first: "register example_hash (snd (register example_hash empty_db ann_credentials))
                 \<lparr>req_email = Some (JString ''bob@x.org''), req_password = Some (JString ''secret2'')\<rparr>
               = (Inr ''User created successfully.'', users_db)"
    by (simp add: register_def User_save_def empty_db_def ann_credentials_def
        users_db_def email_setters_def trim_def eval_chars)
  have same: "email_setters '' BOB@x.org '' = email_setters ''bob@x.org''"
    by (simp add: email_setters_def trim_def eval_chars)
  have c1: "castString (JString ''bob@x.org'') = Casted (Some ''bob@x.org'')" by simp
  have c2: "castString (JString '' BOB@x.org '') = Casted (Some '' BOB@x.org '')" by simp
  show ?thesis
    using first same
      register_duplicate_email [OF first c1 c2 same, of example_hash "Some (JString ''another'')"]
    by (simp add: prod_eq_iff)
qed

text \<open>
  Claim C8 (a registration with a password of fewer than six characters is answered
  with 400 and creates no user). For a missing field and for a short string the guard
  answers 400 and nothing is saved (\<open>register_short_string\<close>). The guard reads the
  length of the password as sent, though: a number has none, so the password 12 passes,
  is cast to the string of two characters and saved. Cy is registered with it.
\<close>

theorem register_numeric_password:
  "register example_hash users_db
     \<lparr>req_email = Some (JString ''cy@x.org''), req_password = Some (JNumber 12)\<rparr>
     = (Inr ''User created successfully.'',
        users_db\<lparr>users := users users_db @
                            [\<lparr>user_id = 2, email = ''cy@x.org'', password = example_hash ''12''\<rparr>],
                  next_id := 3\<rparr>) \<and>
   length ''12'' < 6"
  by (simp add: register_def User_save_def Number_toString_def decimal_nat_12 users_db_def
      email_setters_def trim_def eval_chars)

subsection \<open>The access guard\<close>

text \<open>
  Claim C9: the guard sends 401 exactly when no token comes out of the authorization
  header, which is when the header is absent or is a non-empty string without a space;
  it sends 403 for every error of the verification, whichever it is; and when the
  verification succeeds it hands on the request with the decoded identity attached.
\<close>

theorem authenticateToken_outcomes:
  "(authenticateToken verify req = Inl (SendStatus 401)) = (bearer_token (authorization req) = None) \<and>
   (bearer_token (authorization req) = None) =
      (authorization req = None \<or>
       (\<exists>h. authorization req = Some h \<and> h \<noteq> [] \<and> CHR '' '' \<notin> set h)) \<and>
   (\<forall>token err. bearer_token (authorization req) = Some token \<and> verify token = Inl err \<longrightarrow>
      authenticateToken verify req = Inl (SendStatus 403)) \<and>
   (\<forall>token decoded. bearer_token (authorization req) = Some token \<and> verify token = Inr decoded \<longrightarrow>
      authenticateToken verify req = Inr (req\<lparr>req_user := Some decoded\<rparr>))"
proof (intro conjI)
  show "(authenticateToken verify req = Inl (SendStatus 401)) = (bearer_token (authorization req) = None)"
    by (auto simp: authenticateToken_def split: option.splits sum.splits)
  show "(bearer_token (authorization req) = None) =
      (authorization req = None \<or>
       (\<exists>h. authorization req = Some h \<and> h \<noteq> [] \<and> CHR '' '' \<notin> set h))"
    by (rule bearer_token_None)
  show "\<forall>token err. bearer_token (authorization req) = Some token \<and> verify token = Inl err \<longrightarrow>
      authenticateToken verify req = Inl (SendStatus 403)"
    by (simp add: authenticateToken_def)
  show "\<forall>token decoded. bearer_token (authorization req) = Some token \<and> verify token = Inr decoded \<longrightarrow>
      authenticateToken verify req = Inr (req\<lparr>req_user := Some decoded\<rparr>)"
    by (simp add: authenticateToken_def)
qed

theorem authenticateToken_outcomes_witness:
  "authenticateToken example_verify \<lparr>authorization = None, req_user = None\<rparr>
     = Inl (SendStatus 401) \<and>
   authenticateToken example_verify \<lparr>authorization = Some ''Bearer'', req_user = None\<rparr>
     = Inl (SendStatus 401) \<and>
   authenticateToken example_verify \<lparr>authorization = Some ''Bearer old'', req_user = None\<rparr>
     = Inl (SendStatus 403) \<and>
   authenticateToken example_verify \<lparr>authorization = Some ''Bearer forged'', req_user = None\<rparr>
     = Inl (SendStatus 403) \<and>
   authenticateToken example_verify \<lparr>authorization = Some ''Bearer good'', req_user = None\<rparr>
     = Inr \<lparr>authorization = Some ''Bearer good'',
            req_user = Some \<lparr>payload_id = 0, payload_email = ''ann@x.org''\<rparr>\<rparr>"
proof -
  have t1: "bearer_token (Some ''Bearer old'') = Some ''old''"
    by (simp add: bearer_token_def index_def)
  have t2: "bearer_token (Some ''Bearer forged'') = Some ''forged''"
    by (simp add: bearer_token_def index_def)
  have t3: "bearer_token (Some ''Bearer good'') = Some ''good''"
    by (simp add: bearer_token_def index_def)
  have v1: "example_verify ''old'' = Inl TokenExpiredError"
    by (simp add: example_verify_def)
  have v2: "example_verify ''forged'' = Inl JsonWebTokenError"
    by (simp add: example_verify_def)
  have v3: "example_verify ''good'' = Inr \<lparr>payload_id = 0, payload_email = ''ann@x.org''\<rparr>"
    by (simp add: example_verify_def)
  show ?thesis
    using
      authenticateToken_outcomes [of example_verify "\<lparr>authorization = None, req_user = None\<rparr>"]
      authenticateToken_outcomes [of example_verify "\<lparr>authorization = Some ''Bearer'', req_user = None\<rparr>"]
      authenticateToken_outcomes [of example_verify "\<lparr>authorization = Some ''Bearer old'', req_user = None\<rparr>"]
      authenticateToken_outcomes [of example_verify "\<lparr>authorization = Some ''Bearer forged'', req_user = None\<rparr>"]
      authenticateToken_outcomes [of example_verify "\<lparr>authorization = Some ''Bearer good'', req_user = None\<rparr>"]
      t1 t2 t3 v1 v2 v3
    by simp
qed

subsection \<open>Books of other users and books that are not there\<close>




subsection \<open>What an update changes\<close>

text \<open>
  Claim C6 as stated (an update changes no field outside its payload) fails for
  \<^verbatim>\<open>updatedAt\<close>: the schema has \<^verbatim>\<open>timestamps\<close>, so an update whose payload is a title
  alone also moves the instant of the last update, here from 20 to 30.
\<close>

theorem update_book_updatedAt_counterexample:
  "map updatedAt (books two_books_db) = [10, 20] \<and>
   map updatedAt (books (snd (update_book ObjectId castDate_empty 30 two_books_db 0
       ''000000000000000000000003'' (no_fields\<lparr>body_title := Some ''X''\<rparr>)))) = [10, 30]"
  by (simp add: update_book_def Book_findOneAndUpdate_def ObjectId_3 cast_field_def
      set_paths_def two_books_db_def users_db_def dune_def emma_def no_fields_def Let_def)

text \<open>
  Claim C6, amended: after a successful update whose payload holds some of the title,
  the author, the ISBN, the date of purchase, the publisher and the notes, the stored
  book, which the list of the caller holds, has the value of the payload in every field
  the payload supplies and the value stored before in every other field but
  \<^verbatim>\<open>updatedAt\<close>, which is the instant of the update; its owner, its identifier and
  \<^verbatim>\<open>createdAt\<close> are the ones before, and no other book and no user changes.
\<close>

theorem update_book_frame:
  assumes "update_book castObjectId castDate now s caller bid body = (Inr b', s')"
      and "body_user body = None"
      and "ids_fresh s"
  shows "\<exists>b\<in>set (books s).
           book_id b' = book_id b \<and> castObjectId bid = Casted (book_id b) \<and>
           user b = caller \<and> user b' = caller \<and>
           title b' = (case body_title body of None \<Rightarrow> title b | Some x \<Rightarrow> x) \<and>
           author b' = (case body_author body of None \<Rightarrow> author b | Some x \<Rightarrow> x) \<and>
           isbn b' = (case body_isbn body of None \<Rightarrow> isbn b | Some x \<Rightarrow> x) \<and>
           (body_date_purchased body = None \<longrightarrow> date_purchased b' = date_purchased b) \<and>
           (\<forall>x. body_date_purchased body = Some x \<longrightarrow> castDate x = Casted (date_purchased b')) \<and>
           publisher b' = (case body_publisher body of None \<Rightarrow> publisher b | Some x \<Rightarrow> Some x) \<and>
           book_notes b' = (case body_notes body of None \<Rightarrow> book_notes b | Some x \<Rightarrow> Some x) \<and>
           createdAt b' = createdAt b \<and> updatedAt b' = now \<and>
           books s' = map (\<lambda>c. if book_id c = book_id b then b' else c) (books s) \<and>
           users s' = users s \<and>
           b' \<in> set (list_books s' caller)"
proof -
  from update_book_success [OF assms(1)] obtain i u d b where
    i: "castObjectId bid = Casted i" and
    u: "cast_field castObjectId (body_user body) = Casted u" and
    d: "cast_field castDate (body_date_purchased body) = Casted d" and
    b: "find (\<lambda>b. book_id b = i \<and> user b = caller) (books s) = Some b" and
    b': "b' = set_paths u d body now b" and
    s': "s' = s\<lparr>books := replace_first (\<lambda>b. book_id b = i \<and> user b = caller) b' (books s)\<rparr>"
    by blast
  from b obtain j where "j < length (books s)" and "b = books s ! j"
    and Pb: "book_id b = i \<and> user b = caller"
    by (auto simp: find_Some_iff)
  then have mem: "b \<in> set (books s)" by simp
  from assms(3) have dist: "distinct (map book_id (books s))" by (simp add: ids_fresh_def)
  have books: "books s' = map (\<lambda>c. if book_id c = i then b' else c) (books s)"
    unfolding s' using replace_first_map [OF dist _ b, where i = i] by simp
  from u assms(2) have "u = None" by (simp add: cast_field_def)
  with Pb have usr: "user b' = caller" by (simp add: b' set_paths_def)
  have in_list: "b' \<in> set (list_books s' caller)"
    using mem Pb usr by (auto simp: set_list_books books image_iff)
  have fields: "book_id b' = book_id b" "createdAt b' = createdAt b" "updatedAt b' = now"
    "title b' = (case body_title body of None \<Rightarrow> title b | Some x \<Rightarrow> x)"
    "author b' = (case body_author body of None \<Rightarrow> author b | Some x \<Rightarrow> x)"
    "isbn b' = (case body_isbn body of None \<Rightarrow> isbn b | Some x \<Rightarrow> x)"
    "publisher b' = (case body_publisher body of None \<Rightarrow> publisher b | Some x \<Rightarrow> Some x)"
    "book_notes b' = (case body_notes body of None \<Rightarrow> book_notes b | Some x \<Rightarrow> Some x)"
    by (simp_all add: b' set_paths_def)
  have dat: "body_date_purchased body = None \<longrightarrow> date_purchased b' = date_purchased b"
    "\<forall>x. body_date_purchased body = Some x \<longrightarrow> castDate x = Casted (date_purchased b')"
    using d by (auto simp: b' set_paths_def cast_field_def split: option.splits casted.splits)
  have "users s' = users s" by (simp add: s')
  with mem Pb i books in_list fields usr dat show ?thesis
    by (intro bexI [of _ b]) simp_all
qed

theorem update_book_frame_witness:
  "update_book ObjectId castDate_empty 30 two_books_db 0 ''000000000000000000000003''
       (no_fields\<lparr>body_title := Some ''X''\<rparr>)
     = (Inr (emma\<lparr>title := ''X'', updatedAt := 30\<rparr>),
        two_books_db\<lparr>books := [dune, emma\<lparr>title := ''X'', updatedAt := 30\<rparr>]\<rparr>) \<and>
   body_user (no_fields\<lparr>body_title := Some ''X''\<rparr>) = None \<and>
   ids_fresh two_books_db \<and>
   (\<exists>b\<in>set (books two_books_db).
       book_id b = 3 \<and> title (emma\<lparr>title := ''X'', updatedAt := 30\<rparr>) = ''X'' \<and>
       author (emma\<lparr>title := ''X'', updatedAt := 30\<rparr>) = author b \<and>
       isbn (emma\<lparr>title := ''X'', updatedAt := 30\<rparr>) = isbn b \<and>
       user (emma\<lparr>title := ''X'', updatedAt := 30\<rparr>) = user b \<and>
       createdAt (emma\<lparr>title := ''X'', updatedAt := 30\<rparr>) = createdAt b) \<and>
   emma\<lparr>title := ''X'', updatedAt := 30\<rparr>
     \<in> set (list_books (two_books_db\<lparr>books := [dune, emma\<lparr>title := ''X'', updatedAt := 30\<rparr>]\<rparr>) 0)"
proof -
  have run: "update_book ObjectId castDate_empty 30 two_books_db 0 ''000000000000000000000003''
       (no_fields\<lparr>body_title := Some ''X''\<rparr>)
     = (Inr (emma\<lparr>title := ''X'', updatedAt := 30\<rparr>),
        two_books_db\<lparr>books := [dune, emma\<lparr>title := ''X'', updatedAt := 30\<rparr>]\<rparr>)"
    by (simp add: update_book_def Book_findOneAndUpdate_def ObjectId_3 cast_field_def
      set_paths_def two_books_db_def users_db_def dune_def emma_def no_fields_def Let_def)
  have nouser: "body_user (no_fields\<lparr>body_title := Some ''X''\<rparr>) = None"
    by (simp add: no_fields_def)
  from update_book_frame [OF run nouser ids_fresh_two_books_db]
  have "(\<exists>b\<in>set (books two_books_db).
       book_id b = 3 \<and> title (emma\<lparr>title := ''X'', updatedAt := 30\<rparr>) = ''X'' \<and>
       author (emma\<lparr>title := ''X'', updatedAt := 30\<rparr>) = author b \<and>
       isbn (emma\<lparr>title := ''X'', updatedAt := 30\<rparr>) = isbn b \<and>
       user (emma\<lparr>title := ''X'', updatedAt := 30\<rparr>) = user b \<and>
       createdAt (emma\<lparr>title := ''X'', updatedAt := 30\<rparr>) = createdAt b) \<and>
     emma\<lparr>title := ''X'', updatedAt := 30\<rparr>
       \<in> set (list_books (two_books_db\<lparr>books := [dune, emma\<lparr>title := ''X'', updatedAt := 30\<rparr>]\<rparr>) 0)"
    by (auto simp: no_fields_def emma_def)
  with run nouser ids_fresh_two_books_db show ?thesis by blast
qed

subsection \<open>The owner of a new book\<close>

text \<open>
  Claim C10: the book a successful add creates is owned by the caller, whatever
  \<^verbatim>\<open>user\<close> the body of the request carries, and it is the one document the add appends.
\<close>

theorem add_book_owner:
  assumes "add_book castDate now s caller body = (Inr newBook, s')"
  shows "user newBook = caller \<and> books s' = books s @ [newBook]"
  using assms
  by (auto simp: add_book_def Book_save_def Let_def
      split: if_splits option.splits sum.splits casted.splits)

theorem add_book_owner_witness:
  "add_book castDate_empty 10 users_db 0 (dune_body\<lparr>body_user := Some ''000000000000000000000001''\<rparr>)
     = (Inr dune, users_db\<lparr>books := [dune], next_id := 3\<rparr>) \<and>
   user dune = 0 \<and> books (users_db\<lparr>books := [dune], next_id := 3\<rparr>) = books users_db @ [dune]"
proof -
  have run: "add_book castDate_empty 10 users_db 0
               (dune_body\<lparr>body_user := Some ''000000000000000000000001''\<rparr>)
     = (Inr dune, users_db\<lparr>books := [dune], next_id := 3\<rparr>)"
    by (simp add: add_book_def Book_save_def Book_findOne_def falsy_def cast_field_def users_db_def
        dune_body_def no_fields_def dune_def Let_def)
  show ?thesis
    using run add_book_owner [OF run] by simp
qed

end
